theory Spec2Isabelle
  imports Main "HOL-Library.Log_Nat"
begin

section \<open>The tunable-parameter registry of the engine (src/tunables.cpp)\<close>

text \<open>
  The file \<^verbatim>\<open>src/tunables.cpp\<close> declares thirty-five global \<^verbatim>\<open>Tunable\<close> objects, the
  vector \<^verbatim>\<open>tunables\<close> of pointers to them, and five functions over that vector:
  \<^verbatim>\<open>outputTunables\<close>, \<^verbatim>\<open>outputTunableJSON\<close>, \<^verbatim>\<open>adjustTunable\<close>, \<^verbatim>\<open>readTunable\<close> and
  \<^verbatim>\<open>readTunables\<close>. The struct \<^verbatim>\<open>Tunable\<close> itself (its field types, its constructor and
  its method \<^verbatim>\<open>updateValue\<close>) and the routine \<^verbatim>\<open>calculateReductions\<close> are declared in
  \<^verbatim>\<open>globals.h\<close> and elsewhere; what the model takes for them is said where it is defined.
\<close>

subsection \<open>Numbers: double, int and their conversions\<close>

text \<open>
  A finite \<^verbatim>\<open>double\<close> is modelled by the rational number it denotes. Every arithmetic
  operation computes the exact rational result and rounds it to the nearest number with a
  53-bit significand, ties to the even significand (IEEE 754 binary64, round to nearest).
  The exponent range is not modelled (no overflow to infinity, no subnormal numbers): the
  magnitudes the registry works with (quotients and products of 32-bit integers and the
  declared defaults) lie far inside the normal range. Neither are NaN and the sign of zero:
  an update to 0 at the divisor -1 gives the double \<^verbatim>\<open>-0.0\<close>, which the model does not tell
  from 0.
\<close>

type_synonym double = rat

text \<open>\<open>binade q\<close> is the exponent \<open>e\<close> with \<open>2^e \<le> |q| < 2^(e+1)\<close>, for \<open>q \<noteq> 0\<close>.\<close>

definition binade :: "rat \<Rightarrow> int" where
  "binade q =
     (if 1 \<le> \<bar>q\<bar> then bitlen \<lfloor>\<bar>q\<bar>\<rfloor> - 1 else - bitlen (\<lceil>1 / \<bar>q\<bar>\<rceil> - 1))"

definition nearest_even :: "rat \<Rightarrow> int" where
  "nearest_even m =
     (let f = \<lfloor>m\<rfloor>; r = m - of_int f
      in if r < 1 / 2 then f else if 1 / 2 < r then f + 1 else if even f then f else f + 1)"

definition pow2 :: "int \<Rightarrow> rat" where
  "pow2 e = (if 0 \<le> e then 2 ^ nat e else 1 / 2 ^ nat (- e))"

definition to_double :: "rat \<Rightarrow> double" where
  "to_double q =
     (if q = 0 then 0
      else let u = pow2 (binade q - 52) in of_int (nearest_even (q / u)) * u)"

definition double_of_int :: "int \<Rightarrow> double" where
  "double_of_int i = to_double (of_int i)"

definition double_mul :: "double \<Rightarrow> double \<Rightarrow> double" where
  "double_mul a b = to_double (a * b)"

text \<open>
  Division by zero gives an infinity or a NaN in C++; the model has neither, and every
  statement that depends on a quotient carries the hypothesis that the divisor is not zero.
\<close>

definition double_div :: "double \<Rightarrow> double \<Rightarrow> double" where
  "double_div a b = to_double (a / b)"

text \<open>
  \<^verbatim>\<open>static_cast<int>\<close> of a double drops the fractional part (rounds toward zero). C++ leaves
  the conversion undefined when the result does not fit the 32-bit \<^verbatim>\<open>int\<close>; the model
  returns the truncation at every input, and \<open>int_range\<close> says when it fits.
\<close>

definition static_cast_int :: "double \<Rightarrow> int" where
  "static_cast_int d = (if 0 \<le> d then \<lfloor>d\<rfloor> else \<lceil>d\<rceil>)"

definition int_range :: "int \<Rightarrow> bool" where
  "int_range i = (- 2147483648 \<le> i \<and> i \<le> 2147483647)"

text \<open>
  \<^verbatim>\<open>std::to_string(int)\<close>, and \<^verbatim>\<open><<\<close> on an \<^verbatim>\<open>int\<close>: the decimal digits, after a minus sign
  for a negative number.
\<close>

function digits :: "int \<Rightarrow> string" where
  "digits n =
     (if n < 10 then [char_of (48 + n)] else digits (n div 10) @ [char_of (48 + n mod 10)])"
  by auto
termination
  by (relation "measure nat") auto

definition to_string :: "int \<Rightarrow> string" where
  "to_string i = (if i < 0 then CHR ''-'' # digits (- i) else digits i)"

text \<open>
  \<^verbatim>\<open><<\<close> on a double, with the settings a stream starts with (precision 6, no float field):
  the conversion \<^verbatim>\<open>%g\<close> of C. The value is rounded to six significant decimal digits (ties
  to even, on the exact value); with \<open>X\<close> the decimal exponent of the rounded value, it is
  written in fixed notation when \<open>-4 \<le> X < 6\<close> and in scientific notation otherwise, in both
  without trailing zeros of the fraction and without a decimal point that nothing follows.
  \<open>decade q\<close> is the exponent \<open>e\<close> with \<open>10^e \<le> |q| < 10^(e+1)\<close>, for \<open>q \<noteq> 0\<close>. A zero is
  written \<^verbatim>\<open>0\<close>; the program writes \<^verbatim>\<open>-0\<close> for the negative zero, which the model of the
  doubles does not have.
\<close>

function declen :: "int \<Rightarrow> int" where
  "declen n = (if 0 < n then declen (n div 10) + 1 else 0)"
  by auto
termination
  by (relation "measure nat") auto

definition decade :: "rat \<Rightarrow> int" where
  "decade q =
     (if 1 \<le> \<bar>q\<bar> then declen \<lfloor>\<bar>q\<bar>\<rfloor> - 1 else - declen (\<lceil>1 / \<bar>q\<bar>\<rceil> - 1))"

definition pow10 :: "int \<Rightarrow> rat" where
  "pow10 e = (if 0 \<le> e then 10 ^ nat e else 1 / 10 ^ nat (- e))"

definition strip_zeros :: "string \<Rightarrow> string" where
  "strip_zeros ds = rev (dropWhile (\<lambda>c. c = CHR ''0'') (rev ds))"

definition point_frac :: "string \<Rightarrow> string" where
  "point_frac ds = (let frac = strip_zeros ds in if frac = [] then [] else CHR ''.'' # frac)"

definition ostream_double :: "double \<Rightarrow> string" where
  "ostream_double d =
     (if d = 0 then ''0''
      else
        let e = decade d;
            n = nearest_even (\<bar>d\<bar> / pow10 (e - 5));
            X = (if n = 1000000 then e + 1 else e);
            ds = digits (if n = 1000000 then 100000 else n);
            body =
              (if X < - 4 \<or> 6 \<le> X then
                 take 1 ds @ point_frac (drop 1 ds) @ ''e'' @ (if X < 0 then ''-'' else ''+'')
                   @ (if \<bar>X\<bar> < 10 then ''0'' else []) @ digits \<bar>X\<bar>
               else if 0 \<le> X then take (nat X + 1) ds @ point_frac (drop (nat X + 1) ds)
               else ''0.'' @ replicate (nat (- X - 1)) (CHR ''0'') @ strip_zeros ds)
        in (if d < 0 then ''-'' else []) @ body)"

definition endl :: string where
  "endl = ''\<newline>''"

subsection \<open>The struct Tunable and the program state\<close>

text \<open>
  The functions of \<^verbatim>\<open>tunables.cpp\<close> read the fields \<^verbatim>\<open>name\<close>, \<^verbatim>\<open>value\<close>, \<^verbatim>\<open>divisor\<close>,
  \<^verbatim>\<open>max\<close> and \<^verbatim>\<open>step\<close>. The fields \<^verbatim>\<open>value\<close> and \<^verbatim>\<open>max\<close> carry a prime here:
  the one is a keyword of Isabelle, the other a constant of HOL. The value is a double (the defaults \<^verbatim>\<open>1.8\<close>, \<^verbatim>\<open>0.80\<close>)
  and the divisor an integer (\<^verbatim>\<open>1\<close>, \<^verbatim>\<open>10\<close>, \<^verbatim>\<open>100\<close>, \<^verbatim>\<open>-1\<close>). The types of \<^verbatim>\<open>max\<close> and
  \<^verbatim>\<open>step\<close> are declared in \<^verbatim>\<open>globals.h\<close> only: they stay type parameters.
\<close>

record ('m, 's) Tunable =
  name :: string
  value' :: double
  divisor :: int
  max' :: 'm
  step :: 's

text \<open>
  What \<^verbatim>\<open>std::cout <<\<close> writes for a double, for a \<^verbatim>\<open>max\<close> and for a \<^verbatim>\<open>step\<close> belongs to the
  stream library and to the field types: the three renderings are parameters of the output
  functions.
\<close>

record ('m, 's) ostream =
  put_double :: "double \<Rightarrow> string"
  put_max :: "'m \<Rightarrow> string"
  put_step :: "'s \<Rightarrow> string"

text \<open>
  The state the five functions act on: the objects the vector \<^verbatim>\<open>tunables\<close> points to, in
  the vector's order (its pointers are to thirty-five distinct globals and never change),
  the text written to \<^verbatim>\<open>std::cout\<close> so far, and how often \<^verbatim>\<open>calculateReductions\<close> has run.
\<close>

record ('m, 's) program =
  tunables :: "('m, 's) Tunable list"
  cout :: string
  reductions_calls :: nat

text \<open>
  Modelled from the spec: the constructor \<^verbatim>\<open>Tunable(name, value, divisor)\<close> is declared in
  \<^verbatim>\<open>globals.h\<close>, which is not among the sources. The spec's \<^verbatim>\<open>construct\<close> initialises the
  value with the external default divided by the divisor; the declarations of
  \<^verbatim>\<open>tunables.cpp\<close> pass this internal value itself (\<^verbatim>\<open>"LMR_Base", 0.80, 100\<close> for the external
  default 80), and the constructor stores it. The \<^verbatim>\<open>max\<close> and the \<^verbatim>\<open>step\<close> are declared
  metadata, which a constructor of three arguments can only derive from these three: \<open>mx\<close>
  and \<open>st\<close> stand for how it does.
\<close>

definition Tunable_ctor ::
  "(string \<Rightarrow> double \<Rightarrow> int \<Rightarrow> 'm) \<Rightarrow> (string \<Rightarrow> double \<Rightarrow> int \<Rightarrow> 's) \<Rightarrow>
   string \<Rightarrow> double \<Rightarrow> int \<Rightarrow> ('m, 's) Tunable" where
  "Tunable_ctor mx st n v d =
     \<lparr>name = n, value' = v, divisor = d, max' = mx n v d, step = st n v d\<rparr>"

text \<open>
  Modelled from the spec: \<^verbatim>\<open>Tunable::updateValue\<close> is declared in \<^verbatim>\<open>globals.h\<close>. The spec's
  \<^verbatim>\<open>updateFromExternal(newExternalInt)\<close> sets \<^verbatim>\<open>value = newExternalInt / divisor\<close>, a division
  of doubles (95 at divisor 100 gives 0.95), and does nothing else.
\<close>

definition updateValue :: "('m, 's) Tunable \<Rightarrow> int \<Rightarrow> ('m, 's) Tunable" where
  "updateValue t newValue =
     t\<lparr>value' := double_div (double_of_int newValue) (double_of_int (divisor t))\<rparr>"

text \<open>
  Modelled from the spec: \<^verbatim>\<open>calculateReductions\<close> is the external recomputation routine
  (\<^verbatim>\<open>recompute() -> void\<close>), which rebuilds derived tables of the search and leaves the
  registry and the output alone. The model counts its invocations.
\<close>

definition calculateReductions :: "('m, 's) program \<Rightarrow> ('m, 's) program" where
  "calculateReductions s = s\<lparr>reductions_calls := Suc (reductions_calls s)\<rparr>"

subsection \<open>The globals and the vector of pointers to them (lines 3 to 90)\<close>

text \<open>
  The thirty-five declarations, in the order in which the vector lists them (which is also
  the order of declaration). A decimal literal denotes the nearest double.
\<close>

definition tunables_init ::
  "(string \<Rightarrow> double \<Rightarrow> int \<Rightarrow> 'm) \<Rightarrow> (string \<Rightarrow> double \<Rightarrow> int \<Rightarrow> 's) \<Rightarrow>
   ('m, 's) Tunable list" where
  "tunables_init mx st =
     (let T = (\<lambda>n v d. Tunable_ctor mx st n (to_double v) d) in
      [T ''ASP_BaseDelta'' 20 1,
       T ''ASP_DeltaMultiplier'' 1.8 10,
       T ''ASP_DepthCondition'' 4 1,
       T ''RFP_DepthCondition'' 11 1,
       T ''RFP_Multiplier'' 84 1,
       T ''IIR_DepthCondition'' 5 1,
       T ''FP_DepthCondition'' 3 1,
       T ''FP_Base'' 278 1,
       T ''FP_Multiplier'' 67 1,
       T ''LMP_DepthCondition'' 8 1,
       T ''LMP_Base'' 0 1,
       T ''SPR_DepthCondition'' 3 1,
       T ''SPR_CaptureThreshold'' (- 108) (- 1),
       T ''SPR_QuietThreshold'' (- 32) (- 1),
       T ''NMP_Divisor'' 196 1,
       T ''NMP_Subtractor'' 3 1,
       T ''NMP_DepthCondition'' 2 1,
       T ''HMR_Divisor'' 8074 1,
       T ''CMR_Divisor'' 3000 1,
       T ''LMR_Base'' 0.80 100,
       T ''LMR_Multiplier'' 0.56 100,
       T ''HST_MaxBonus'' 1892 1,
       T ''HST_Multiplier'' 4 1,
       T ''HST_Adder'' 121 1,
       T ''HST_Subtractor'' 120 1,
       T ''SIN_DepthCondition'' 8 1,
       T ''SIN_DepthMargin'' 3 1,
       T ''SIN_DepthScale'' 24 1,
       T ''RAZ_DepthMultiplier'' 395 1,
       T ''NTM_DepthCondition'' 8 1,
       T ''NTM_Subtractor'' 1.53 100,
       T ''NTM_Multiplier'' 1.39 100,
       T ''NTM_Default'' 0.98 100,
       T ''HIP_DepthCondition'' 4 1,
       T ''HIP_DepthMultiplier'' (- 1536) (- 1)])"

definition program_init ::
  "(string \<Rightarrow> double \<Rightarrow> int \<Rightarrow> 'm) \<Rightarrow> (string \<Rightarrow> double \<Rightarrow> int \<Rightarrow> 's) \<Rightarrow>
   ('m, 's) program" where
  "program_init mx st = \<lparr>tunables = tunables_init mx st, cout = [], reductions_calls = 0\<rparr>"

subsection \<open>outputTunables (lines 93 to 97)\<close>

fun outputTunables_loop ::
  "('m, 's) ostream \<Rightarrow> ('m, 's) Tunable list \<Rightarrow> string \<Rightarrow> string" where
  "outputTunables_loop os [] out = out"
| "outputTunables_loop os (tunable # rest) out =
     outputTunables_loop os rest
       (out @ ''option name '' @ name tunable @ '' type spin default ''
            @ to_string (static_cast_int
                (double_mul (value' tunable) (double_of_int (divisor tunable))))
            @ '' min '' @ ''0'' @ '' max '' @ put_max os (max' tunable) @ endl)"

definition outputTunables :: "('m, 's) ostream \<Rightarrow> ('m, 's) program \<Rightarrow> ('m, 's) program" where
  "outputTunables os s = s\<lparr>cout := outputTunables_loop os (tunables s) (cout s)\<rparr>"

subsection \<open>outputTunableJSON (lines 98 to 109)\<close>

fun outputTunableJSON_loop ::
  "('m, 's) ostream \<Rightarrow> ('m, 's) Tunable list \<Rightarrow> string \<Rightarrow> string" where
  \<open>outputTunableJSON_loop os [] out = out\<close>
| \<open>outputTunableJSON_loop os (tunable # rest) out =
     outputTunableJSON_loop os rest
       (out @ ''   "'' @ name tunable @ ''": {\<newline>''
            @ ''      "value": ''
            @ to_string (static_cast_int
                (double_mul (value' tunable) (double_of_int (divisor tunable))))
            @ '','' @ endl
            @ ''      "min_value": '' @ ''0'' @ '','' @ endl
            @ ''      "max_value": '' @ put_max os (max' tunable) @ '','' @ endl
            @ ''      "step": '' @ put_step os (step tunable) @ endl
            @ ''   },\<newline>'')\<close>

definition outputTunableJSON ::
  "('m, 's) ostream \<Rightarrow> ('m, 's) program \<Rightarrow> ('m, 's) program" where
  "outputTunableJSON os s =
     s\<lparr>cout := outputTunableJSON_loop os (tunables s) (cout s @ ''{\<newline>'') @ ''}\<newline>''\<rparr>"

subsection \<open>adjustTunable (lines 110 to 121)\<close>

text \<open>
  The loop walks the vector; \<open>seen\<close> holds the objects it has passed. At the first object
  with the name it updates that object, runs \<^verbatim>\<open>calculateReductions\<close> for the two reduction
  parameters, and returns. Having passed every object it writes the diagnostic.
\<close>

fun adjustTunable_loop ::
  "string \<Rightarrow> int \<Rightarrow> ('m, 's) Tunable list \<Rightarrow> ('m, 's) Tunable list \<Rightarrow>
   ('m, 's) program \<Rightarrow> ('m, 's) program" where
  "adjustTunable_loop nm v seen [] s = s\<lparr>cout := cout s @ ''No Such Tunable\<newline>''\<rparr>"
| "adjustTunable_loop nm v seen (tunable # rest) s =
     (if name tunable = nm then
        (let s' = s\<lparr>tunables := seen @ updateValue tunable v # rest\<rparr>
         in if nm = ''LMR_Base'' \<or> nm = ''LMR_Multiplier'' then calculateReductions s' else s')
      else adjustTunable_loop nm v (seen @ [tunable]) rest s)"

definition adjustTunable :: "string \<Rightarrow> int \<Rightarrow> ('m, 's) program \<Rightarrow> ('m, 's) program" where
  "adjustTunable nm v s = adjustTunable_loop nm v [] (tunables s) s"

subsection \<open>readTunable (lines 122 to 130)\<close>

fun readTunable_loop ::
  "('m, 's) ostream \<Rightarrow> string \<Rightarrow> ('m, 's) Tunable list \<Rightarrow> string \<Rightarrow> string" where
  "readTunable_loop os nm [] out = out @ ''No Such Tunable\<newline>''"
| "readTunable_loop os nm (tunable # rest) out =
     (if name tunable = nm then out @ ''value: '' @ put_double os (value' tunable) @ endl
      else readTunable_loop os nm rest out)"

definition readTunable ::
  "('m, 's) ostream \<Rightarrow> string \<Rightarrow> ('m, 's) program \<Rightarrow> ('m, 's) program" where
  "readTunable os nm s = s\<lparr>cout := readTunable_loop os nm (tunables s) (cout s)\<rparr>"

subsection \<open>readTunables (lines 131 to 141)\<close>

fun readTunables_loop ::
  "('m, 's) ostream \<Rightarrow> ('m, 's) Tunable list \<Rightarrow> string \<Rightarrow> string" where
  "readTunables_loop os [] out = out"
| "readTunables_loop os (tunable # rest) out =
     readTunables_loop os rest
       (out @ ''name: '' @ name tunable @ endl
            @ ''value: '' @ put_double os (value' tunable) @ endl
            @ ''min: '' @ ''0'' @ endl
            @ ''max: '' @ put_max os (max' tunable) @ endl
            @ ''divisor: '' @ to_string (divisor tunable) @ endl
            @ ''step: '' @ put_step os (step tunable) @ endl)"

definition readTunables :: "('m, 's) ostream \<Rightarrow> ('m, 's) program \<Rightarrow> ('m, 's) program" where
  "readTunables os s = s\<lparr>cout := readTunables_loop os (tunables s) (cout s)\<rparr>"

subsection \<open>The callers\<close>

text \<open>
  The command loop that calls the five functions is not part of the file. A state is
  reachable when it comes from the state at start-up by calls of them, in any order and
  with any arguments; the integer of an update is a C++ \<^verbatim>\<open>int\<close>.
\<close>

inductive reachable ::
  "(string \<Rightarrow> double \<Rightarrow> int \<Rightarrow> 'm) \<Rightarrow> (string \<Rightarrow> double \<Rightarrow> int \<Rightarrow> 's) \<Rightarrow>
   ('m, 's) program \<Rightarrow> bool"
  for mx :: "string \<Rightarrow> double \<Rightarrow> int \<Rightarrow> 'm" and st :: "string \<Rightarrow> double \<Rightarrow> int \<Rightarrow> 's" where
  start: "reachable mx st (program_init mx st)"
| options: "reachable mx st s \<Longrightarrow> reachable mx st (outputTunables os s)"
| json: "reachable mx st s \<Longrightarrow> reachable mx st (outputTunableJSON os s)"
| adjust: "reachable mx st s \<Longrightarrow> int_range v \<Longrightarrow> reachable mx st (adjustTunable nm v s)"
| read_one: "reachable mx st s \<Longrightarrow> reachable mx st (readTunable os nm s)"
| read_all: "reachable mx st s \<Longrightarrow> reachable mx st (readTunables os s)"

subsection \<open>The notions of the specification\<close>

text \<open>
  The lookup contract: the first parameter of the sequence whose name is the given one.
\<close>

definition lookup :: "string \<Rightarrow> ('m, 's) Tunable list \<Rightarrow> ('m, 's) Tunable option" where
  "lookup nm ts = find (\<lambda>t. name t = nm) ts"

text \<open>
  The externally scaled integer of a parameter, \<^verbatim>\<open>truncate(value * divisor)\<close>; the product
  is the product of doubles.
\<close>

definition externalValue :: "('m, 's) Tunable \<Rightarrow> int" where
  "externalValue t = static_cast_int (double_mul (value' t) (double_of_int (divisor t)))"

text \<open>
  The round trip of the scaled-value protocol: \<open>scaled_back x d\<close> is the product that the
  reports convert after an update to \<open>x\<close> at the divisor \<open>d\<close>. An integer is representable
  without rounding at the precision of the divisor when its quotient by the divisor is a
  double.
\<close>

definition is_double :: "rat \<Rightarrow> bool" where
  "is_double q = (to_double q = q)"

definition scaled_back :: "int \<Rightarrow> int \<Rightarrow> double" where
  "scaled_back x d =
     double_mul (double_div (double_of_int x) (double_of_int d)) (double_of_int d)"

text \<open>
  A report is a sequence of entries, each under the name of its parameter. The line of the
  options declaration:
  \<^verbatim>\<open>option name <NAME> type spin default <EXTERNAL_INT> min 0 max <MAX>\<close>\<close>

definition option_line :: "('m, 's) ostream \<Rightarrow> ('m, 's) Tunable \<Rightarrow> string" where
  "option_line os t =
     ''option name '' @ name t @ '' type spin default '' @ to_string (externalValue t)
       @ '' min 0 max '' @ put_max os (max' t) @ ''\<newline>''"

definition option_entries ::
  "('m, 's) ostream \<Rightarrow> ('m, 's) Tunable list \<Rightarrow> (string \<times> string) list" where
  "option_entries os ts = map (\<lambda>t. (name t, option_line os t)) ts"

text \<open>The six lines that \<^verbatim>\<open>readTunables\<close> reports for a parameter.\<close>

definition read_entries ::
  "('m, 's) ostream \<Rightarrow> ('m, 's) Tunable list \<Rightarrow> (string \<times> string) list" where
  "read_entries os ts =
     map (\<lambda>t. (name t,
       ''name: '' @ name t @ ''\<newline>''
       @ ''value: '' @ put_double os (value' t) @ ''\<newline>''
       @ ''min: 0\<newline>''
       @ ''max: '' @ put_max os (max' t) @ ''\<newline>''
       @ ''divisor: '' @ to_string (divisor t) @ ''\<newline>''
       @ ''step: '' @ put_step os (step t) @ ''\<newline>'')) ts"

text \<open>
  The JSON snapshot as a document: one member per parameter, keyed by its name, whose value
  is the object of the four fields in their order. The rendering is the layout of the
  interface section, with a comma after every member of the outer object (also the last).
\<close>

definition json_snapshot ::
  "('m, 's) ostream \<Rightarrow> ('m, 's) Tunable list \<Rightarrow> (string \<times> (string \<times> string) list) list" where
  "json_snapshot os ts =
     map (\<lambda>t. (name t,
       [(''value'', to_string (externalValue t)),
        (''min_value'', ''0''),
        (''max_value'', put_max os (max' t)),
        (''step'', put_step os (step t))])) ts"

fun render_fields :: "(string \<times> string) list \<Rightarrow> string" where
  \<open>render_fields [] = []\<close>
| \<open>render_fields [(k, v)] = ''      "'' @ k @ ''": '' @ v @ ''\<newline>''\<close>
| \<open>render_fields ((k, v) # rest) = ''      "'' @ k @ ''": '' @ v @ '',\<newline>'' @ render_fields rest\<close>

definition render_member :: "string \<times> (string \<times> string) list \<Rightarrow> string" where
  \<open>render_member m = ''   "'' @ fst m @ ''": {\<newline>'' @ render_fields (snd m) @ ''   },\<newline>''\<close>

definition render_snapshot :: "(string \<times> (string \<times> string) list) list \<Rightarrow> string" where
  "render_snapshot ms = ''{\<newline>'' @ concat (map render_member ms) @ ''}\<newline>''"

text \<open>
  For concrete instances: a registry whose \<^verbatim>\<open>max\<close> and \<^verbatim>\<open>step\<close> carry no information, with
  the stream that writes nothing for them; and the stream for a \<^verbatim>\<open>max\<close> and a \<^verbatim>\<open>step\<close> of
  type \<^verbatim>\<open>int\<close>.
\<close>

definition no_meta :: "string \<Rightarrow> double \<Rightarrow> int \<Rightarrow> unit" where
  "no_meta n v d = ()"

definition cout_unit :: "(unit, unit) ostream" where
  "cout_unit = \<lparr>put_double = ostream_double, put_max = (\<lambda>m. []), put_step = (\<lambda>s. [])\<rparr>"

definition cout_int :: "(int, int) ostream" where
  "cout_int = \<lparr>put_double = ostream_double, put_max = to_string, put_step = to_string\<rparr>"

section \<open>Lemmas\<close>

subsection \<open>Integers are doubles\<close>

lemma nearest_even_of_int: "nearest_even (of_int k) = k"
  by (simp add: nearest_even_def)

lemma binade_of_int: "x \<noteq> 0 \<Longrightarrow> binade (of_int x) = bitlen \<bar>x\<bar> - 1"
proof -
  assume "x \<noteq> 0"
  then have "1 \<le> \<bar>x\<bar>" by simp
  then have "(1::rat) \<le> \<bar>of_int x\<bar>"
    by (metis of_int_1 of_int_abs of_int_le_iff)
  moreover have "\<lfloor>\<bar>of_int x :: rat\<bar>\<rfloor> = \<bar>x\<bar>"
    by (metis floor_of_int of_int_abs)
  ultimately show ?thesis by (simp add: binade_def)
qed

lemma to_double_of_int:
  assumes "\<bar>x\<bar> < 2 ^ 53"
  shows "to_double (of_int x) = of_int x"
proof (cases "x = 0")
  case True
  then show ?thesis by (simp add: to_double_def)
next
  case False
  define n where "n = nat (53 - bitlen \<bar>x\<bar>)"
  have "bitlen \<bar>x\<bar> \<le> 53"
    using assms by (simp add: bitlen_le_iff_power)
  then have e: "binade (of_int x) - 52 = - int n"
    using False by (simp add: binade_of_int n_def)
  have u: "pow2 (- int n) = 1 / 2 ^ n"
    by (cases "n = 0") (simp_all add: pow2_def)
  have "of_int x / (1 / 2 ^ n) = (of_int (x * 2 ^ n) :: rat)"
    by simp
  then have "nearest_even (of_int x / pow2 (- int n)) = x * 2 ^ n"
    by (simp only: u nearest_even_of_int)
  then show ?thesis
    using False by (simp add: to_double_def e u Let_def)
qed

lemma to_double_of_int_range: "int_range x \<Longrightarrow> to_double (of_int x) = of_int x"
  by (rule to_double_of_int) (simp add: int_range_def abs_less_iff)

lemma static_cast_int_of_int: "static_cast_int (of_int k) = k"
  by (simp add: static_cast_int_def)

lemma to_double_numeral:
  "numeral n < (2::int) ^ 53 \<Longrightarrow> to_double (numeral n) = numeral n"
  using to_double_of_int [of "numeral n"] by simp

lemma to_double_neg_numeral:
  "numeral n < (2::int) ^ 53 \<Longrightarrow> to_double (- numeral n) = - numeral n"
  using to_double_of_int [of "- numeral n"] by simp

lemma to_double_one: "to_double 1 = 1"
  using to_double_of_int [of 1] by simp

lemma to_double_zero: "to_double 0 = 0"
  by (simp add: to_double_def)

lemma to_double_neg_one: "to_double (- 1) = - 1"
  using to_double_of_int [of "- 1"] by simp

lemma static_cast_int_zero: "static_cast_int 0 = 0"
  by (simp add: static_cast_int_def)

lemma static_cast_int_numeral: "static_cast_int (numeral n) = numeral n"
  using static_cast_int_of_int [of "numeral n"] by simp

subsection \<open>The rounding error\<close>

text \<open>
  Rounding moves a number by at most half a unit of its last place, which is at most the
  number times \<open>2^-53\<close>.
\<close>

lemma pow2_pos: "0 < pow2 e"
  by (simp add: pow2_def)

lemma pow2_diff_52: "pow2 (e - 52) = pow2 e / 2 ^ 52"
proof -
  have "pow2 e = 2 powi e" for e
    by (simp add: pow2_def power_int_def inverse_eq_divide power_one_over)
  then show ?thesis
    by (simp add: power_int_diff)
qed

lemma nearest_even_error: "\<bar>of_int (nearest_even m) - m\<bar> \<le> 1 / 2"
proof -
  have "of_int \<lfloor>m\<rfloor> \<le> m" "m < of_int \<lfloor>m\<rfloor> + 1"
    by linarith+
  then show ?thesis
    by (auto simp: nearest_even_def Let_def abs_le_iff)
qed

lemma binade_lower:
  assumes "q \<noteq> 0"
  shows "pow2 (binade q) \<le> \<bar>q\<bar>"
proof (cases "1 \<le> \<bar>q\<bar>")
  case True
  then have a: "0 < \<lfloor>\<bar>q\<bar>\<rfloor>" by linarith
  have "(2::int) ^ nat (bitlen \<lfloor>\<bar>q\<bar>\<rfloor> - 1) \<le> \<lfloor>\<bar>q\<bar>\<rfloor>"
    using bitlen_bounds [OF a] by simp
  then have "(of_int ((2::int) ^ nat (bitlen \<lfloor>\<bar>q\<bar>\<rfloor> - 1)) :: rat) \<le> of_int \<lfloor>\<bar>q\<bar>\<rfloor>"
    by (simp only: of_int_le_iff)
  also have "\<dots> \<le> \<bar>q\<bar>" by linarith
  finally have "(2::rat) ^ nat (bitlen \<lfloor>\<bar>q\<bar>\<rfloor> - 1) \<le> \<bar>q\<bar>" by simp
  moreover have "0 \<le> bitlen \<lfloor>\<bar>q\<bar>\<rfloor> - 1"
    using a bitlen_eq_zero_iff [of "\<lfloor>\<bar>q\<bar>\<rfloor>"] bitlen_nonneg [of "\<lfloor>\<bar>q\<bar>\<rfloor>"] by linarith
  ultimately show ?thesis
    using True by (simp add: binade_def pow2_def)
next
  case False
  define c where "c = \<lceil>1 / \<bar>q\<bar>\<rceil>"
  define k where "k = bitlen (c - 1)"
  from False assms have q: "0 < \<bar>q\<bar>" "\<bar>q\<bar> < 1" by auto
  then have "1 < 1 / \<bar>q\<bar>" by simp
  then have c: "0 < c - 1" unfolding c_def by linarith
  have k: "0 < k"
    using c bitlen_eq_zero_iff [of "c - 1"] bitlen_nonneg [of "c - 1"] unfolding k_def by linarith
  have "c - 1 < 2 ^ nat k"
    using bitlen_bounds [OF c] unfolding k_def by simp
  then have "c \<le> 2 ^ nat k" by simp
  then have "(of_int c :: rat) \<le> of_int (2 ^ nat k)"
    by (simp only: of_int_le_iff)
  then have "(of_int c :: rat) \<le> 2 ^ nat k"
    by simp
  moreover have "1 / \<bar>q\<bar> \<le> of_int c"
    unfolding c_def by linarith
  ultimately have "1 / \<bar>q\<bar> \<le> 2 ^ nat k"
    by (rule order_trans [rotated])
  then have "1 / 2 ^ nat k \<le> \<bar>q\<bar>"
    using q(1) by (simp add: field_simps)
  then show ?thesis
    using False k by (simp add: binade_def pow2_def flip: c_def k_def)
qed

lemma to_double_error: "\<bar>to_double q - q\<bar> \<le> \<bar>q\<bar> / 2 ^ 53"
proof (cases "q = 0")
  case True
  then show ?thesis by (simp add: to_double_def)
next
  case False
  define u where "u = pow2 (binade q - 52)"
  have u: "0 < u" unfolding u_def by (rule pow2_pos)
  have "to_double q - q = (of_int (nearest_even (q / u)) - q / u) * u"
    using False u by (simp add: to_double_def Let_def u_def [symmetric] field_simps)
  then have "\<bar>to_double q - q\<bar> = \<bar>of_int (nearest_even (q / u)) - q / u\<bar> * u"
    using u by (simp add: abs_mult)
  also have "\<dots> \<le> 1 / 2 * u"
    using nearest_even_error [of "q / u"] u by (intro mult_right_mono) simp_all
  also have "\<dots> = pow2 (binade q) / 2 ^ 53"
    by (simp add: u_def pow2_diff_52)
  also have "\<dots> \<le> \<bar>q\<bar> / 2 ^ 53"
    using binade_lower [OF False] by (simp add: divide_right_mono)
  finally show ?thesis .
qed

lemma round_trip_close:
  assumes "d \<noteq> 0" and "int_range x"
  shows "\<bar>to_double (to_double (of_int x / of_int d) * of_int d) - of_int x\<bar> < 1"
proof -
  define v where "v = to_double (of_int x / of_int d)"
  define p where "p = v * of_int d"
  have X: "\<bar>of_int x :: rat\<bar> \<le> 2 ^ 31"
  proof -
    have "\<bar>x\<bar> \<le> 2 ^ 31" using assms(2) by (simp add: int_range_def abs_le_iff)
    then have "(of_int \<bar>x\<bar> :: rat) \<le> of_int (2 ^ 31)" by (simp only: of_int_le_iff)
    then show ?thesis by simp
  qed
  have d: "(of_int d :: rat) \<noteq> 0" using assms(1) by simp
  have "p - of_int x = (v - of_int x / of_int d) * of_int d"
    using d by (simp add: p_def field_simps)
  then have "\<bar>p - of_int x\<bar> = \<bar>v - of_int x / of_int d\<bar> * \<bar>of_int d :: rat\<bar>"
    by (simp add: abs_mult)
  also have "\<dots> \<le> \<bar>of_int x / of_int d\<bar> / 2 ^ 53 * \<bar>of_int d :: rat\<bar>"
    unfolding v_def by (intro mult_right_mono to_double_error) simp
  also have "\<dots> = \<bar>of_int x\<bar> / 2 ^ 53"
    using d by (simp add: abs_divide)
  also have "\<dots> \<le> 2 ^ 31 / 2 ^ 53"
    using X by (simp add: divide_right_mono)
  finally have a: "\<bar>p - of_int x\<bar> \<le> 2 ^ 31 / 2 ^ 53" .
  have "\<bar>p\<bar> \<le> \<bar>p - of_int x\<bar> + \<bar>of_int x\<bar>" by simp
  with a X have P: "\<bar>p\<bar> \<le> 2 ^ 32" by simp
  have "\<bar>to_double p - p\<bar> \<le> \<bar>p\<bar> / 2 ^ 53" by (rule to_double_error)
  also have "\<dots> \<le> 2 ^ 32 / 2 ^ 53"
    using P by (simp add: divide_right_mono)
  finally have b: "\<bar>to_double p - p\<bar> \<le> 2 ^ 32 / 2 ^ 53" .
  have "\<bar>to_double p - of_int x\<bar> \<le> \<bar>to_double p - p\<bar> + \<bar>p - of_int x\<bar>" by simp
  with a b have "\<bar>to_double p - of_int x\<bar> < 1" by simp
  then show ?thesis by (simp add: p_def v_def)
qed

lemma static_cast_int_near:
  assumes "\<bar>r - of_int x\<bar> < 1"
  shows "static_cast_int r = x \<or> static_cast_int r = x - sgn x"
proof -
  from assms have r: "of_int x - 1 < r" "r < of_int x + 1"
    by (simp_all add: abs_less_iff)
  consider "0 < x" | "x < 0" | "x = 0" by linarith
  then show ?thesis
  proof cases
    case 1
    then have "0 \<le> r" using r(1) by simp
    moreover have "x - 1 \<le> \<lfloor>r\<rfloor>" "\<lfloor>r\<rfloor> \<le> x"
      using r by linarith+
    ultimately show ?thesis
      using 1 by (auto simp: static_cast_int_def)
  next
    case 2
    then have "r < 0" using r(2) by simp
    moreover have "x \<le> \<lceil>r\<rceil>" "\<lceil>r\<rceil> \<le> x + 1"
      using r by linarith+
    ultimately show ?thesis
      using 2 by (auto simp: static_cast_int_def)
  next
    case 3
    with r have "- 1 < r" "r < 1" by simp_all
    then have "(0 \<le> r \<longrightarrow> \<lfloor>r\<rfloor> = 0) \<and> (r < 0 \<longrightarrow> \<lceil>r\<rceil> = 0)"
      by (auto simp: floor_eq_iff ceiling_eq_iff)
    then show ?thesis
      using 3 by (auto simp: static_cast_int_def)
  qed
qed

subsection \<open>The loops\<close>

lemma outputTunables_loop_eq:
  "outputTunables_loop os ts out = out @ concat (map (option_line os) ts)"
  by (induction ts arbitrary: out) (simp_all add: option_line_def externalValue_def endl_def)

lemma readTunables_loop_eq:
  "readTunables_loop os ts out = out @ concat (map snd (read_entries os ts))"
  by (induction ts arbitrary: out) (simp_all add: read_entries_def endl_def)

lemma outputTunableJSON_loop_eq:
  "outputTunableJSON_loop os ts out = out @ concat (map render_member (json_snapshot os ts))"
  by (induction ts arbitrary: out)
    (simp_all add: json_snapshot_def render_member_def externalValue_def endl_def)

lemma adjustTunable_loop_absent:
  "nm \<notin> name ` set ts \<Longrightarrow>
   adjustTunable_loop nm v seen ts s = s\<lparr>cout := cout s @ ''No Such Tunable\<newline>''\<rparr>"
  by (induction ts arbitrary: seen) auto

lemma readTunable_loop_absent:
  "nm \<notin> name ` set ts \<Longrightarrow> readTunable_loop os nm ts out = out @ ''No Such Tunable\<newline>''"
  by (induction ts) auto

lemma lookup_split:
  "lookup nm ts = Some t \<Longrightarrow>
   \<exists>pre post. ts = pre @ t # post \<and> nm \<notin> name ` set pre \<and> name t = nm"
proof (induction ts)
  case Nil
  then show ?case by (simp add: lookup_def)
next
  case (Cons a ts)
  show ?case
  proof (cases "name a = nm")
    case True
    with Cons.prems have "a = t" by (simp add: lookup_def)
    with True have "a # ts = [] @ t # ts \<and> nm \<notin> name ` set [] \<and> name t = nm" by simp
    then show ?thesis by blast
  next
    case False
    with Cons.prems have "lookup nm ts = Some t" by (simp add: lookup_def)
    from Cons.IH [OF this] obtain pre post
      where "ts = pre @ t # post" "nm \<notin> name ` set pre" "name t = nm" by blast
    with False have "a # ts = (a # pre) @ t # post \<and> nm \<notin> name ` set (a # pre) \<and> name t = nm"
      by auto
    then show ?thesis by blast
  qed
qed

lemma lookup_present: "nm \<in> name ` set ts \<Longrightarrow> \<exists>t. lookup nm ts = Some t"
  by (induction ts) (auto simp: lookup_def)

lemma lookup_first:
  "nm \<notin> name ` set pre \<Longrightarrow> name t = nm \<Longrightarrow> lookup nm (pre @ t # post) = Some t"
  by (induction pre) (auto simp: lookup_def)

lemma adjustTunable_loop_found:
  "nm \<notin> name ` set pre \<Longrightarrow> name t = nm \<Longrightarrow>
   adjustTunable_loop nm v seen (pre @ t # post) s =
     (let s' = s\<lparr>tunables := seen @ pre @ updateValue t v # post\<rparr>
      in if nm = ''LMR_Base'' \<or> nm = ''LMR_Multiplier'' then calculateReductions s' else s')"
  by (induction pre arbitrary: seen) auto

lemma readTunable_loop_found:
  "nm \<notin> name ` set pre \<Longrightarrow> name t = nm \<Longrightarrow>
   readTunable_loop os nm (pre @ t # post) out =
     out @ ''value: '' @ put_double os (value' t) @ ''\<newline>''"
  by (induction pre) (auto simp: endl_def)

subsection \<open>adjustTunable, absent and present names\<close>

lemma adjustTunable_absent:
  "nm \<notin> name ` set (tunables s) \<Longrightarrow>
   adjustTunable nm v s = s\<lparr>cout := cout s @ ''No Such Tunable\<newline>''\<rparr>"
  by (simp add: adjustTunable_def adjustTunable_loop_absent)

lemma adjustTunable_found:
  assumes "tunables s = pre @ t # post" and "nm \<notin> name ` set pre" and "name t = nm"
  shows "adjustTunable nm v s =
    s\<lparr>tunables := pre @ updateValue t v # post,
      reductions_calls :=
        (if nm = ''LMR_Base'' \<or> nm = ''LMR_Multiplier'' then Suc (reductions_calls s)
         else reductions_calls s)\<rparr>"
  using adjustTunable_loop_found [OF assms(2,3), of v "[]" post s] assms(1)
  by (simp add: adjustTunable_def calculateReductions_def Let_def)

lemma name_updateValue: "name (updateValue t v) = name t"
  by (simp add: updateValue_def)

lemma adjustTunable_map:
  assumes "\<And>t. f (updateValue t v) = f t"
  shows "map f (tunables (adjustTunable nm v s)) = map f (tunables s)"
proof (cases "nm \<in> name ` set (tunables s)")
  case False
  then show ?thesis by (simp add: adjustTunable_absent)
next
  case True
  then obtain t where "lookup nm (tunables s) = Some t"
    using lookup_present by blast
  then obtain pre post
    where split: "tunables s = pre @ t # post" "nm \<notin> name ` set pre" "name t = nm"
    using lookup_split by blast
  show ?thesis
    by (simp add: adjustTunable_found [OF split] split(1) assms)
qed

subsection \<open>Names and divisors never change\<close>

lemma reachable_fixed:
  "reachable mx st s \<Longrightarrow>
   map name (tunables s) = map name (tunables_init mx st) \<and>
   map divisor (tunables s) = map divisor (tunables_init mx st)"
proof (induction rule: reachable.induct)
  case start
  show ?case by (simp add: program_init_def)
next
  case (adjust s v nm)
  then show ?case
    by (simp add: adjustTunable_map updateValue_def)
qed (simp_all add: outputTunables_def outputTunableJSON_def readTunable_def readTunables_def)

lemma names_init:
  "map name (tunables_init mx st) =
    [''ASP_BaseDelta'', ''ASP_DeltaMultiplier'', ''ASP_DepthCondition'', ''RFP_DepthCondition'',
     ''RFP_Multiplier'', ''IIR_DepthCondition'', ''FP_DepthCondition'', ''FP_Base'',
     ''FP_Multiplier'', ''LMP_DepthCondition'', ''LMP_Base'', ''SPR_DepthCondition'',
     ''SPR_CaptureThreshold'', ''SPR_QuietThreshold'', ''NMP_Divisor'', ''NMP_Subtractor'',
     ''NMP_DepthCondition'', ''HMR_Divisor'', ''CMR_Divisor'', ''LMR_Base'', ''LMR_Multiplier'',
     ''HST_MaxBonus'', ''HST_Multiplier'', ''HST_Adder'', ''HST_Subtractor'',
     ''SIN_DepthCondition'', ''SIN_DepthMargin'', ''SIN_DepthScale'', ''RAZ_DepthMultiplier'',
     ''NTM_DepthCondition'', ''NTM_Subtractor'', ''NTM_Multiplier'', ''NTM_Default'',
     ''HIP_DepthCondition'', ''HIP_DepthMultiplier'']"
  by (simp add: tunables_init_def Tunable_ctor_def)

lemma divisors_init:
  "map divisor (tunables_init mx st) =
    [1, 10, 1, 1, 1, 1, 1, 1, 1, 1, 1, 1, - 1, - 1, 1, 1, 1, 1, 1, 100, 100,
     1, 1, 1, 1, 1, 1, 1, 1, 1, 100, 100, 100, 1, - 1]"
  by (simp add: tunables_init_def Tunable_ctor_def)

lemma distinct_names_init: "distinct (map name (tunables_init mx st))"
  unfolding names_init by simp

lemma zip_map_mem: "x \<in> set xs \<Longrightarrow> (f x, g x) \<in> set (zip (map f xs) (map g xs))"
  by (induction xs) auto

lemma name_divisor_reachable:
  assumes "reachable mx st s" and "t \<in> set (tunables s)"
  shows "(name t, divisor t) \<in> set (zip (map name (tunables_init mx st))
    (map divisor (tunables_init mx st)))"
  using zip_map_mem [OF assms(2), of name divisor] reachable_fixed [OF assms(1)] by simp

lemma divisor_reachable:
  assumes "reachable mx st s" and "t \<in> set (tunables s)"
  shows "divisor t \<in> {1, 10, 100, - 1}"
  using name_divisor_reachable [OF assms] unfolding names_init divisors_init by auto

subsection \<open>Scaling and unscaling\<close>

lemma externalValue_updateValue:
  "externalValue (updateValue t x) = static_cast_int (scaled_back x (divisor t))"
  by (simp add: externalValue_def updateValue_def scaled_back_def)

lemma scaled_back_eq:
  assumes "int_range x" and "int_range d"
  shows "scaled_back x d = to_double (to_double (of_int x / of_int d) * of_int d)"
  using assms
  by (simp add: scaled_back_def double_mul_def double_div_def double_of_int_def
      to_double_of_int_range)

lemma scaled_back_close:
  assumes "d \<noteq> 0" and "int_range x" and "int_range d"
  shows "\<bar>scaled_back x d - of_int x\<bar> < 1"
  using round_trip_close [OF assms(1,2)] by (simp add: scaled_back_eq [OF assms(2,3)])

lemma scaled_back_near:
  assumes "d \<noteq> 0" and "int_range x" and "int_range d"
  shows "static_cast_int (scaled_back x d) = x \<or> static_cast_int (scaled_back x d) = x - sgn x"
  using static_cast_int_near [OF scaled_back_close [OF assms]] .

lemma scaled_back_is_double:
  assumes "d \<noteq> 0" and "int_range x" and "int_range d"
    and "is_double (of_int x / of_int d)"
  shows "scaled_back x d = of_int x"
proof -
  have "to_double (of_int x / of_int d) * of_int d = (of_int x :: rat)"
    using assms(1,4) by (simp add: is_double_def)
  then show ?thesis
    using assms(2) by (simp add: scaled_back_eq [OF assms(2,3)] to_double_of_int_range)
qed

lemma unit_divisor_is_double:
  assumes "d = 1 \<or> d = - 1" and "int_range x"
  shows "is_double (of_int x / of_int d)"
proof -
  from assms(1) have "of_int x / (of_int d :: rat) = of_int (x * d)"
    by auto
  moreover have "\<bar>x * d\<bar> < 2 ^ 53"
    using assms by (auto simp: int_range_def abs_mult)
  ultimately show ?thesis
    by (simp only: is_double_def to_double_of_int)
qed

lemma externalValue_updateValue_exact:
  assumes "divisor t \<noteq> 0" and "int_range x" and "int_range (divisor t)"
    and "is_double (of_int x / of_int (divisor t))"
  shows "externalValue (updateValue t x) = x"
  by (simp add: externalValue_updateValue scaled_back_is_double [OF assms]
      static_cast_int_of_int)

lemma int_range_near: "int_range x \<Longrightarrow> e = x \<or> e = x - sgn x \<Longrightarrow> int_range e"
  by (auto simp: int_range_def sgn_if split: if_splits)

lemma scaled_fractions:
  "static_cast_int (double_mul (to_double 1.8) (double_of_int 10)) = 18"
  "static_cast_int (double_mul (to_double 0.80) (double_of_int 100)) = 80"
  "static_cast_int (double_mul (to_double 0.56) (double_of_int 100)) = 56"
  "static_cast_int (double_mul (to_double 1.53) (double_of_int 100)) = 153"
  "static_cast_int (double_mul (to_double 1.39) (double_of_int 100)) = 139"
  "static_cast_int (double_mul (to_double 0.98) (double_of_int 100)) = 98"
  by code_simp+

lemma external_defaults:
  "map externalValue (tunables_init mx st)
   = [20, 18, 4, 11, 84, 5, 3, 278, 67, 8, 0, 3, 108, 32, 196, 3, 2, 8074, 3000, 80, 56,
      1892, 4, 121, 120, 8, 3, 24, 395, 8, 153, 139, 98, 4, 1536]"
  unfolding tunables_init_def Let_def Tunable_ctor_def externalValue_def
  apply (simp only: list.map Tunable.select_convs scaled_fractions)
  apply (simp add: double_mul_def double_of_int_def to_double_numeral to_double_neg_numeral
      to_double_one to_double_neg_one to_double_zero static_cast_int_zero
      static_cast_int_numeral)
  done

lemma reachable_scaled_in_range:
  "reachable mx st s \<Longrightarrow> \<forall>t \<in> set (tunables s). int_range (externalValue t)"
proof (induction rule: reachable.induct)
  case start
  have "\<forall>e \<in> set (map externalValue (tunables_init mx st)). int_range e"
    unfolding external_defaults by (simp add: int_range_def)
  then show ?case by (simp add: program_init_def)
next
  case (adjust s v nm)
  show ?case
  proof (cases "nm \<in> name ` set (tunables s)")
    case False
    then show ?thesis
      using adjust.IH by (simp add: adjustTunable_absent)
  next
    case True
    then obtain t where "lookup nm (tunables s) = Some t"
      using lookup_present by blast
    then obtain pre post
      where split: "tunables s = pre @ t # post" "nm \<notin> name ` set pre" "name t = nm"
      using lookup_split by blast
    have "t \<in> set (tunables s)" by (simp add: split(1))
    from divisor_reachable [OF adjust.hyps(1) this]
    have "divisor t \<noteq> 0" "int_range (divisor t)"
      by (auto simp: int_range_def)
    from scaled_back_near [OF this(1) adjust.hyps(2) this(2)]
    have "int_range (externalValue (updateValue t v))"
      using int_range_near [OF adjust.hyps(2)] by (simp add: externalValue_updateValue)
    then show ?thesis
      using adjust.IH by (auto simp: adjustTunable_found [OF split] split(1))
  qed
qed (simp_all add: outputTunables_def outputTunableJSON_def readTunable_def readTunables_def)

subsection \<open>The registry at start-up and after an update\<close>

lemma count_list_distinct: "distinct xs \<Longrightarrow> x \<in> set xs \<Longrightarrow> count_list xs x = 1"
  by (induction xs) auto

lemma reachable_adjust_init:
  "int_range v \<Longrightarrow> reachable mx st (adjustTunable nm v (program_init mx st))"
  by (intro reachable.adjust reachable.start)

lemma name_set_init:
  "name ` set (tunables (program_init mx st)) = set (map name (tunables_init mx st))"
  by (simp add: program_init_def)

lemma lookup_LMR_Base:
  "lookup ''LMR_Base'' (tunables (program_init mx st)) =
     Some (Tunable_ctor mx st ''LMR_Base'' (to_double 0.80) 100)"
  by (simp add: lookup_def program_init_def tunables_init_def Tunable_ctor_def)

lemma lookup_ASP_DepthCondition:
  "lookup ''ASP_DepthCondition'' (tunables (program_init mx st)) =
     Some (Tunable_ctor mx st ''ASP_DepthCondition'' (to_double 4) 1)"
  by (simp add: lookup_def program_init_def tunables_init_def Tunable_ctor_def)

lemma lookup_name: "lookup nm ts = Some t \<Longrightarrow> nm \<in> name ` set ts"
  by (induction ts) (auto simp: lookup_def split: if_splits)

lemma lookup_adjustTunable:
  assumes "lookup nm (tunables s) = Some t"
  shows "lookup nm (tunables (adjustTunable nm v s)) = Some (updateValue t v)"
    and "cout (adjustTunable nm v s) = cout s"
proof -
  from lookup_split [OF assms] obtain pre post
    where split: "tunables s = pre @ t # post" "nm \<notin> name ` set pre" "name t = nm"
    by blast
  show "lookup nm (tunables (adjustTunable nm v s)) = Some (updateValue t v)"
    using split(2,3)
    by (simp add: adjustTunable_found [OF split] lookup_first name_updateValue)
  show "cout (adjustTunable nm v s) = cout s"
    by (simp add: adjustTunable_found [OF split])
qed

subsection \<open>Evaluations for the instances\<close>

lemma ostream_double_080: "ostream_double (to_double (4 / 5)) = ''0.8''"
  by code_simp

lemma ostream_double_095:
  "ostream_double (double_div (double_of_int 95) (double_of_int 100)) = ''0.95''"
  by code_simp



lemma to_double_84: "to_double 84 = 84"
  using to_double_of_int [of 84] by simp

lemma scaled_84: "static_cast_int (double_mul 84 (double_of_int 1)) = 84"
  by code_simp

lemma to_string_84: "to_string 84 = ''84''"
  by code_simp

lemma to_double_080: "to_double (4 / 5) = 3602879701896397 / 4503599627370496"
  by code_simp

lemma scaled_080:
  "static_cast_int (double_mul (3602879701896397 / 4503599627370496) (double_of_int 100)) = 80"
  by code_simp

lemma to_string_80: "to_string 80 = ''80''"
  by code_simp

lemma to_string_160: "to_string 160 = ''160''"
  by code_simp

lemma to_string_8: "to_string 8 = ''8''"
  by code_simp

section \<open>The claims\<close>

subsection \<open>C1: scaling round trip\<close>




subsection \<open>C2: unknown names\<close>

text \<open>
  C2. For a name that no parameter of the registry has, \<^verbatim>\<open>adjustTunable\<close> (with any
  integer) and \<^verbatim>\<open>readTunable\<close> each write \<^verbatim>\<open>No Such Tunable\<close> and a newline, and change
  nothing else of the state: every parameter keeps its value, \<^verbatim>\<open>calculateReductions\<close> is not
  run, and the call returns.
\<close>

theorem unknown_name_safe:
  assumes "nm \<notin> name ` set (tunables s)"
  shows "adjustTunable nm v s = s\<lparr>cout := cout s @ ''No Such Tunable\<newline>''\<rparr> \<and>
         readTunable os nm s = s\<lparr>cout := cout s @ ''No Such Tunable\<newline>''\<rparr>"
  using assms
  by (simp add: adjustTunable_absent readTunable_def readTunable_loop_absent)

theorem unknown_name_safe_witness:
  "adjustTunable ''NOT_A_REAL_NAME'' 5 (program_init no_meta no_meta) =
     (program_init no_meta no_meta)\<lparr>cout := ''No Such Tunable\<newline>''\<rparr> \<and>
   readTunable cout_unit ''NOT_A_REAL_NAME'' (program_init no_meta no_meta) =
     (program_init no_meta no_meta)\<lparr>cout := ''No Such Tunable\<newline>''\<rparr>"
proof -
  have "''NOT_A_REAL_NAME'' \<notin> name ` set (tunables (program_init no_meta no_meta))"
    unfolding name_set_init names_init by simp
  from unknown_name_safe [OF this, of 5 cout_unit] show ?thesis
    by (simp add: program_init_def)
qed

subsection \<open>C3: when the reductions are recomputed\<close>

text \<open>
  C3. An update of a parameter of the registry runs \<^verbatim>\<open>calculateReductions\<close> exactly once
  when the name is \<^verbatim>\<open>LMR_Base\<close> or \<^verbatim>\<open>LMR_Multiplier\<close>, and not at all for any other name.
\<close>

theorem recomputation_gating:
  assumes "nm \<in> name ` set (tunables s)"
  shows "reductions_calls (adjustTunable nm v s) =
    (if nm = ''LMR_Base'' \<or> nm = ''LMR_Multiplier'' then reductions_calls s + 1
     else reductions_calls s)"
proof -
  from assms obtain t where "lookup nm (tunables s) = Some t"
    using lookup_present by blast
  then obtain pre post
    where split: "tunables s = pre @ t # post" "nm \<notin> name ` set pre" "name t = nm"
    using lookup_split by blast
  show ?thesis
    by (simp add: adjustTunable_found [OF split])
qed

theorem recomputation_gating_witness:
  "reductions_calls (adjustTunable ''LMR_Base'' 95 (program_init no_meta no_meta)) = 1 \<and>
   reductions_calls (adjustTunable ''ASP_DepthCondition'' 5 (program_init no_meta no_meta)) = 0"
proof -
  have a: "''LMR_Base'' \<in> name ` set (tunables (program_init no_meta no_meta))"
    using lookup_LMR_Base by (rule lookup_name)
  have b: "''ASP_DepthCondition'' \<in> name ` set (tunables (program_init no_meta no_meta))"
    using lookup_ASP_DepthCondition by (rule lookup_name)
  show ?thesis
    using recomputation_gating [OF a, of 95] recomputation_gating [OF b, of 5]
    by (simp add: program_init_def)
qed

subsection \<open>C4: the options declaration\<close>

text \<open>
  C4. \<^verbatim>\<open>outputTunables\<close> writes, for each parameter in the order of the registry, exactly
  the line \<^verbatim>\<open>option name <NAME> type spin default <EXTERNAL_INT> min 0 max <MAX>\<close>, where
  the integer is \<^verbatim>\<open>truncate(value * divisor)\<close>, and changes nothing else. For
  \<^verbatim>\<open>RFP_Multiplier\<close>, declared with 84 and divisor 1, the default field is 84.
\<close>

theorem outputTunables_lines:
  "outputTunables os s = s\<lparr>cout := cout s @ concat (map (option_line os) (tunables s))\<rparr> \<and>
   option_line os (tunables_init mx st ! 4) =
     ''option name RFP_Multiplier type spin default 84 min 0 max ''
       @ put_max os (mx ''RFP_Multiplier'' 84 1) @ ''\<newline>''"
proof
  show "outputTunables os s = s\<lparr>cout := cout s @ concat (map (option_line os) (tunables s))\<rparr>"
    by (simp add: outputTunables_def outputTunables_loop_eq)
  have "tunables_init mx st ! 4 = Tunable_ctor mx st ''RFP_Multiplier'' 84 1"
    by (simp add: tunables_init_def to_double_84)
  then show "option_line os (tunables_init mx st ! 4) =
     ''option name RFP_Multiplier type spin default 84 min 0 max ''
       @ put_max os (mx ''RFP_Multiplier'' 84 1) @ ''\<newline>''"
    by (simp add: option_line_def externalValue_def Tunable_ctor_def scaled_84 to_string_84)
qed

theorem outputTunables_lines_witness:
  "cout (outputTunables cout_int
     \<lparr>tunables = [\<lparr>name = ''LMR_Base'', value' = to_double 0.80, divisor = 100,
                    max' = 160, step = 8\<rparr>],
      cout = [], reductions_calls = 0\<rparr>)
   = ''option name LMR_Base type spin default 80 min 0 max 160\<newline>''"
  using outputTunables_lines [THEN conjunct1, of "cout_int"
      "\<lparr>tunables = [\<lparr>name = ''LMR_Base'', value' = to_double 0.80, divisor = 100,
                    max' = 160, step = 8\<rparr>], cout = [], reductions_calls = 0\<rparr>"]
  by (simp add: cout_int_def option_line_def externalValue_def to_double_080 scaled_080
      to_string_80 to_string_160)

subsection \<open>C5: the JSON snapshot\<close>

text \<open>
  C5. \<^verbatim>\<open>outputTunableJSON\<close> writes one object whose members are keyed by the names of the
  parameters, in the order of the registry; each member holds, in this order, \<^verbatim>\<open>value\<close>
  (the integer \<^verbatim>\<open>truncate(value * divisor)\<close>), \<^verbatim>\<open>min_value\<close> (always 0), \<^verbatim>\<open>max_value\<close>
  (the declared max) and \<^verbatim>\<open>step\<close> (the declared step). Nothing else of the state changes.
\<close>

theorem outputTunableJSON_snapshot:
  "outputTunableJSON os s =
     s\<lparr>cout := cout s @ render_snapshot (json_snapshot os (tunables s))\<rparr>"
  by (simp add: outputTunableJSON_def outputTunableJSON_loop_eq render_snapshot_def)

theorem outputTunableJSON_snapshot_witness:
  \<open>cout (outputTunableJSON cout_int
     \<lparr>tunables = [\<lparr>name = ''LMR_Base'', value' = to_double 0.80, divisor = 100,
                    max' = 160, step = 8\<rparr>],
      cout = [], reductions_calls = 0\<rparr>)
   = ''{\<newline>''
   @ ''   "LMR_Base": {\<newline>''
   @ ''      "value": 80,\<newline>''
   @ ''      "min_value": 0,\<newline>''
   @ ''      "max_value": 160,\<newline>''
   @ ''      "step": 8\<newline>''
   @ ''   },\<newline>''
   @ ''}\<newline>''\<close>
  using outputTunableJSON_snapshot
    [of "cout_int"
      "\<lparr>tunables = [\<lparr>name = ''LMR_Base'', value' = to_double 0.80, divisor = 100,
                    max' = 160, step = 8\<rparr>], cout = [], reductions_calls = 0\<rparr>"]
  by (simp add: cout_int_def render_snapshot_def render_member_def json_snapshot_def
      externalValue_def to_double_080 scaled_080 to_string_80 to_string_160 to_string_8)

subsection \<open>C6: one entry per name, in one order\<close>

text \<open>
  C6. In every reachable state each of the three reports (the options declaration,
  \<^verbatim>\<open>readTunables\<close> and the JSON snapshot) is the sequence of its entries, and the names
  under which the entries stand are, in this order, the names of the registry at
  construction; these are distinct, so a name of the registry has exactly one entry in
  each report.
\<close>

theorem reports_one_entry_per_name:
  assumes "reachable mx st s" and "nm \<in> set (map name (tunables_init mx st))"
  shows "cout (outputTunables os s) = cout s @ concat (map snd (option_entries os (tunables s))) \<and>
         cout (readTunables os s) = cout s @ concat (map snd (read_entries os (tunables s))) \<and>
         cout (outputTunableJSON os s) = cout s @ render_snapshot (json_snapshot os (tunables s)) \<and>
         map fst (option_entries os (tunables s)) = map name (tunables_init mx st) \<and>
         map fst (read_entries os (tunables s)) = map name (tunables_init mx st) \<and>
         map fst (json_snapshot os (tunables s)) = map name (tunables_init mx st) \<and>
         count_list (map fst (option_entries os (tunables s))) nm = 1 \<and>
         count_list (map fst (read_entries os (tunables s))) nm = 1 \<and>
         count_list (map fst (json_snapshot os (tunables s))) nm = 1"
proof -
  have names: "map name (tunables s) = map name (tunables_init mx st)"
    using reachable_fixed [OF assms(1)] by simp
  have k1: "map fst (option_entries os (tunables s)) = map name (tunables_init mx st)"
    using names by (simp add: option_entries_def comp_def)
  have k2: "map fst (read_entries os (tunables s)) = map name (tunables_init mx st)"
    using names by (simp add: read_entries_def comp_def)
  have k3: "map fst (json_snapshot os (tunables s)) = map name (tunables_init mx st)"
    using names by (simp add: json_snapshot_def comp_def)
  have one: "count_list (map name (tunables_init mx st)) nm = 1"
    using distinct_names_init assms(2) by (rule count_list_distinct)
  have o1: "cout (outputTunables os s) = cout s @ concat (map snd (option_entries os (tunables s)))"
    by (simp add: outputTunables_def outputTunables_loop_eq option_entries_def comp_def)
  have o2: "cout (readTunables os s) = cout s @ concat (map snd (read_entries os (tunables s)))"
    by (simp add: readTunables_def readTunables_loop_eq)
  have o3: "cout (outputTunableJSON os s) = cout s @ render_snapshot (json_snapshot os (tunables s))"
    by (simp add: outputTunableJSON_def outputTunableJSON_loop_eq render_snapshot_def)
  show ?thesis
    using o1 o2 o3 k1 k2 k3 one by simp
qed

theorem reports_one_entry_per_name_witness:
  "count_list (map fst (option_entries cout_unit
      (tunables (adjustTunable ''LMR_Base'' 95 (program_init no_meta no_meta))))) ''NTM_Default'' = 1 \<and>
   count_list (map fst (read_entries cout_unit
      (tunables (adjustTunable ''LMR_Base'' 95 (program_init no_meta no_meta))))) ''NTM_Default'' = 1 \<and>
   count_list (map fst (json_snapshot cout_unit
      (tunables (adjustTunable ''LMR_Base'' 95 (program_init no_meta no_meta))))) ''NTM_Default'' = 1 \<and>
   map fst (json_snapshot cout_unit
      (tunables (adjustTunable ''LMR_Base'' 95 (program_init no_meta no_meta))))
     = map fst (option_entries cout_unit
      (tunables (adjustTunable ''LMR_Base'' 95 (program_init no_meta no_meta))))"
proof -
  have "''NTM_Default'' \<in> set (map name (tunables_init no_meta no_meta))"
    unfolding names_init by simp
  moreover have "reachable no_meta no_meta
      (adjustTunable ''LMR_Base'' 95 (program_init no_meta no_meta))"
    by (rule reachable_adjust_init) (simp add: int_range_def)
  ultimately show ?thesis
    using reports_one_entry_per_name [of no_meta no_meta _ "''NTM_Default''" cout_unit]
    by metis
qed

subsection \<open>C7: reading one parameter\<close>

text \<open>
  C7. For a name of the registry \<^verbatim>\<open>readTunable\<close> writes \<^verbatim>\<open>value: \<close>, the internal
  (unscaled) value of the first parameter with that name, and a newline, and changes nothing
  else. For \<^verbatim>\<open>LMR_Base\<close> at start-up this value is the double of the literal \<^verbatim>\<open>0.80\<close>, not
  the external 80.
\<close>

theorem readTunable_reports_value:
  assumes "lookup nm (tunables s) = Some t"
  shows "readTunable os nm s =
    s\<lparr>cout := cout s @ ''value: '' @ put_double os (value' t) @ ''\<newline>''\<rparr>"
proof -
  from lookup_split [OF assms] obtain pre post
    where split: "tunables s = pre @ t # post" "nm \<notin> name ` set pre" "name t = nm"
    by blast
  show ?thesis
    by (simp add: readTunable_def split(1) readTunable_loop_found [OF split(2,3)])
qed

theorem readTunable_reports_value_witness:
  "cout (readTunable cout_unit ''LMR_Base'' (program_init no_meta no_meta)) =
     ''value: 0.8\<newline>'' \<and>
   cout (readTunable cout_unit ''LMR_Base''
     (adjustTunable ''LMR_Base'' 95 (program_init no_meta no_meta))) = ''value: 0.95\<newline>''"
proof -
  let ?s = "program_init no_meta no_meta"
  let ?t = "Tunable_ctor no_meta no_meta ''LMR_Base'' (to_double 0.80) 100"
  have l: "lookup ''LMR_Base'' (tunables ?s) = Some ?t"
    by (rule lookup_LMR_Base)
  have "cout (readTunable cout_unit ''LMR_Base'' ?s) = ''value: 0.8\<newline>''"
    using readTunable_reports_value [OF l, of cout_unit]
    by (simp add: program_init_def Tunable_ctor_def cout_unit_def ostream_double_080)
  moreover have "cout (readTunable cout_unit ''LMR_Base'' (adjustTunable ''LMR_Base'' 95 ?s)) =
      ''value: 0.95\<newline>''"
    using readTunable_reports_value [OF lookup_adjustTunable(1) [OF l, of 95], of cout_unit]
      lookup_adjustTunable(2) [OF l, of 95]
    by (simp add: program_init_def Tunable_ctor_def updateValue_def cout_unit_def
        ostream_double_095)
  ultimately show ?thesis by simp
qed

subsection \<open>C8: the divisors\<close>

text \<open>
  C8 as stated (every divisor is positive) fails: \<^verbatim>\<open>SPR_CaptureThreshold\<close>, the thirteenth
  parameter, is declared with the value -108 and the divisor -1.
\<close>

theorem divisor_not_positive:
  "name (tunables_init no_meta no_meta ! 12) = ''SPR_CaptureThreshold'' \<and>
   divisor (tunables_init no_meta no_meta ! 12) = - 1 \<and>
   \<not> 0 < divisor (tunables_init no_meta no_meta ! 12)"
  by (simp add: tunables_init_def Tunable_ctor_def)

text \<open>
  C8, amended. In every reachable state the divisor of every parameter of the registry is a
  scale factor other than zero, so dividing and multiplying by it is well defined: it is
  positive (1, 10 or 100), except for \<^verbatim>\<open>SPR_CaptureThreshold\<close>, \<^verbatim>\<open>SPR_QuietThreshold\<close> and
  \<^verbatim>\<open>HIP_DepthMultiplier\<close>, declared with a negative value, where it is -1.
\<close>

theorem divisor_nonzero:
  assumes "reachable mx st s" and "t \<in> set (tunables s)"
  shows "divisor t \<noteq> 0 \<and> divisor t \<in> {1, 10, 100, - 1} \<and>
    (divisor t = - 1 \<longleftrightarrow>
      name t \<in> {''SPR_CaptureThreshold'', ''SPR_QuietThreshold'', ''HIP_DepthMultiplier''})"
  using name_divisor_reachable [OF assms] unfolding names_init divisors_init by auto

theorem divisor_nonzero_witness:
  "divisor (tunables (program_init no_meta no_meta) ! 12) \<noteq> 0 \<and>
   divisor (tunables (program_init no_meta no_meta) ! 12) \<in> {1, 10, 100, - 1}"
proof -
  have "tunables (program_init no_meta no_meta) ! 12 \<in> set (tunables (program_init no_meta no_meta))"
    by (rule nth_mem) (simp add: program_init_def tunables_init_def)
  from divisor_nonzero [OF reachable.start this] show ?thesis by blast
qed

subsection \<open>C9: what an update writes\<close>

text \<open>
  C9 as stated (a successful update writes a success diagnostic) fails: the update of
  \<^verbatim>\<open>LMR_Base\<close> to 95 at start-up writes nothing.
\<close>

theorem update_success_is_silent:
  "cout (adjustTunable ''LMR_Base'' 95 (program_init no_meta no_meta)) = []"
proof -
  from lookup_split [OF lookup_LMR_Base] obtain pre post
    where split: "tunables (program_init no_meta no_meta) =
        pre @ Tunable_ctor no_meta no_meta ''LMR_Base'' (to_double 0.80) 100 # post"
      "''LMR_Base'' \<notin> name ` set pre"
      "name (Tunable_ctor no_meta no_meta ''LMR_Base'' (to_double 0.80) 100) = ''LMR_Base''"
    by blast
  show ?thesis
    by (simp add: adjustTunable_found [OF split]) (simp add: program_init_def)
qed

text \<open>
  C9, amended. \<^verbatim>\<open>adjustTunable\<close> writes nothing when the name is in the registry; it writes
  \<^verbatim>\<open>No Such Tunable\<close> and a newline when it is not.
\<close>

theorem adjustTunable_output:
  "cout (adjustTunable nm v s) =
    (if nm \<in> name ` set (tunables s) then cout s else cout s @ ''No Such Tunable\<newline>'')"
proof (cases "nm \<in> name ` set (tunables s)")
  case False
  then show ?thesis by (simp add: adjustTunable_absent)
next
  case True
  then obtain t where "lookup nm (tunables s) = Some t"
    using lookup_present by blast
  then obtain pre post
    where split: "tunables s = pre @ t # post" "nm \<notin> name ` set pre" "name t = nm"
    using lookup_split by blast
  show ?thesis
    using True by (simp add: adjustTunable_found [OF split])
qed

theorem adjustTunable_output_witness:
  "cout (adjustTunable ''ASP_DepthCondition'' 5 (program_init no_meta no_meta)) = [] \<and>
   cout (adjustTunable ''asp_depthcondition'' 5 (program_init no_meta no_meta)) =
     ''No Such Tunable\<newline>''"
proof -
  have a: "''ASP_DepthCondition'' \<in> name ` set (tunables (program_init no_meta no_meta))"
    using lookup_ASP_DepthCondition by (rule lookup_name)
  have b: "''asp_depthcondition'' \<notin> name ` set (tunables (program_init no_meta no_meta))"
    unfolding name_set_init names_init by simp
  have c: "cout (program_init no_meta no_meta) = []"
    by (simp add: program_init_def)
  show ?thesis
    using adjustTunable_output [of "''ASP_DepthCondition''" 5 "program_init no_meta no_meta"]
      adjustTunable_output [of "''asp_depthcondition''" 5 "program_init no_meta no_meta"]
    by (simp only: a b c if_True if_False append_Nil simp_thms)
qed

subsection \<open>C10: what an update leaves alone\<close>

text \<open>
  C10. An update of a name of the registry replaces the first parameter with that name by a
  parameter with the same name, divisor, max and step; every other parameter of the registry
  stays as it is, in its place. The update is the spec's \<^verbatim>\<open>updateFromExternal\<close>.
\<close>

theorem adjustTunable_frame:
  assumes "lookup nm (tunables s) = Some t"
  shows "\<exists>pre post t'.
    tunables s = pre @ t # post \<and> nm \<notin> name ` set pre \<and>
    tunables (adjustTunable nm v s) = pre @ t' # post \<and>
    name t' = name t \<and> divisor t' = divisor t \<and> max' t' = max' t \<and> step t' = step t"
proof -
  from lookup_split [OF assms] obtain pre post
    where split: "tunables s = pre @ t # post" "nm \<notin> name ` set pre" "name t = nm"
    by blast
  have "tunables (adjustTunable nm v s) = pre @ updateValue t v # post"
    by (simp add: adjustTunable_found [OF split])
  moreover have "name (updateValue t v) = name t" "divisor (updateValue t v) = divisor t"
    "max' (updateValue t v) = max' t" "step (updateValue t v) = step t"
    by (simp_all add: updateValue_def)
  ultimately show ?thesis
    using split(1,2) by blast
qed

theorem adjustTunable_frame_witness:
  "\<exists>pre post t'.
    tunables (program_init no_meta no_meta) =
      pre @ Tunable_ctor no_meta no_meta ''LMR_Base'' (to_double 0.80) 100 # post \<and>
    ''LMR_Base'' \<notin> name ` set pre \<and>
    tunables (adjustTunable ''LMR_Base'' 95 (program_init no_meta no_meta)) = pre @ t' # post \<and>
    name t' = ''LMR_Base'' \<and> divisor t' = 100"
proof -
  from adjustTunable_frame [OF lookup_LMR_Base, of no_meta no_meta 95] obtain pre post t'
    where "tunables (program_init no_meta no_meta) =
        pre @ Tunable_ctor no_meta no_meta ''LMR_Base'' (to_double 0.80) 100 # post"
      "''LMR_Base'' \<notin> name ` set pre"
      "tunables (adjustTunable ''LMR_Base'' 95 (program_init no_meta no_meta)) = pre @ t' # post"
      "name t' = name (Tunable_ctor no_meta no_meta ''LMR_Base'' (to_double 0.80) 100)"
      "divisor t' = divisor (Tunable_ctor no_meta no_meta ''LMR_Base'' (to_double 0.80) 100)"
    by blast
  moreover have "name (Tunable_ctor no_meta no_meta ''LMR_Base'' (to_double 0.80) 100) = ''LMR_Base''"
    "divisor (Tunable_ctor no_meta no_meta ''LMR_Base'' (to_double 0.80) 100) = 100"
    by (simp_all add: Tunable_ctor_def)
  ultimately show ?thesis by metis
qed

section \<open>Further properties\<close>

subsection \<open>The reports only read\<close>

text \<open>
  A report appends its text and changes nothing else, so two reports in succession write
  the same text twice (the idempotence of the specification's testable properties).
\<close>

theorem reports_repeat:
  "readTunables os s = s\<lparr>cout := cout s @ concat (map snd (read_entries os (tunables s)))\<rparr> \<and>
   cout (readTunables os (readTunables os s)) =
     cout s @ concat (map snd (read_entries os (tunables s)))
            @ concat (map snd (read_entries os (tunables s))) \<and>
   cout (outputTunableJSON os (outputTunableJSON os s)) =
     cout s @ render_snapshot (json_snapshot os (tunables s))
            @ render_snapshot (json_snapshot os (tunables s))"
  by (simp add: readTunables_def readTunables_loop_eq outputTunableJSON_def
      outputTunableJSON_loop_eq render_snapshot_def)

subsection \<open>The registry is fixed at start-up\<close>

text \<open>
  No call adds, removes or reorders a parameter, or changes a name, a divisor, a max or a
  step: in every reachable state the registry has its thirty-five parameters, with the
  metadata of the start.
\<close>

theorem registry_fixed:
  assumes "reachable mx st s"
  shows "length (tunables s) = 35 \<and>
         map name (tunables s) = map name (tunables_init mx st) \<and>
         map divisor (tunables s) = map divisor (tunables_init mx st) \<and>
         map max' (tunables s) = map max' (tunables_init mx st) \<and>
         map step (tunables s) = map step (tunables_init mx st)"
proof -
  have "map name (tunables s) = map name (tunables_init mx st) \<and>
        map divisor (tunables s) = map divisor (tunables_init mx st) \<and>
        map max' (tunables s) = map max' (tunables_init mx st) \<and>
        map step (tunables s) = map step (tunables_init mx st)"
    using assms
  proof (induction rule: reachable.induct)
    case start
    show ?case by (simp add: program_init_def)
  next
    case (adjust s v nm)
    then show ?case
      by (simp add: adjustTunable_map updateValue_def)
  qed (simp_all add: outputTunables_def outputTunableJSON_def readTunable_def readTunables_def)
  moreover from this have "length (tunables s) = length (tunables_init mx st)"
    using map_eq_imp_length_eq by blast
  moreover have "length (tunables_init mx st) = 35"
    by (simp add: tunables_init_def)
  ultimately show ?thesis by simp
qed

theorem registry_fixed_witness:
  "length (tunables (readTunables cout_unit
     (adjustTunable ''LMR_Base'' 95 (program_init no_meta no_meta)))) = 35"
proof -
  have "reachable no_meta no_meta
      (readTunables cout_unit (adjustTunable ''LMR_Base'' 95 (program_init no_meta no_meta)))"
    by (intro reachable.read_all reachable_adjust_init) (simp add: int_range_def)
  from registry_fixed [OF this] show ?thesis by simp
qed

subsection \<open>The round trip at unit divisors, and in the int range\<close>

text \<open>
  For a parameter with divisor 1 or -1 (thirty of the thirty-five) every C++ int comes back
  from the round trip of update and scaling.
\<close>

theorem unit_divisor_round_trip:
  assumes "lookup nm (tunables s) = Some t"
    and "divisor t = 1 \<or> divisor t = - 1"
    and "int_range x"
  shows "map_option externalValue (lookup nm (tunables (adjustTunable nm x s))) = Some x"
proof -
  have d: "divisor t \<noteq> 0" "int_range (divisor t)"
    using assms(2) by (auto simp: int_range_def)
  have "externalValue (updateValue t x) = x"
    using d(1) assms(3) d(2) unit_divisor_is_double [OF assms(2,3)]
    by (rule externalValue_updateValue_exact)
  then show ?thesis
    by (simp add: lookup_adjustTunable(1) [OF assms(1)])
qed

theorem unit_divisor_round_trip_witness:
  "map_option externalValue (lookup ''ASP_DepthCondition''
     (tunables (adjustTunable ''ASP_DepthCondition'' 2147483647 (program_init no_meta no_meta))))
   = Some 2147483647"
  using unit_divisor_round_trip [OF lookup_ASP_DepthCondition, where x = 2147483647]
  by (simp add: Tunable_ctor_def int_range_def)

text \<open>
  In general the round trip gives the integer back or misses it by one toward zero, for
  every C++ int and every divisor other than zero: the two roundings move the product by
  less than one. The result is again a C++ int.
\<close>

theorem round_trip_within_one:
  assumes "lookup nm (tunables s) = Some t"
    and "divisor t \<noteq> 0" and "int_range (divisor t)" and "int_range x"
  shows "\<exists>e. map_option externalValue (lookup nm (tunables (adjustTunable nm x s))) = Some e \<and>
             (e = x \<or> e = x - sgn x) \<and> int_range e"
  using scaled_back_near [OF assms(2,4,3)] int_range_near [OF assms(4)]
  by (auto simp: lookup_adjustTunable(1) [OF assms(1)] externalValue_updateValue)

theorem round_trip_within_one_witness:
  "\<exists>e. map_option externalValue (lookup ''LMR_Base''
          (tunables (adjustTunable ''LMR_Base'' 57 (program_init no_meta no_meta)))) = Some e \<and>
       (e = 57 \<or> e = 57 - sgn 57) \<and> int_range e"
  using round_trip_within_one [OF lookup_LMR_Base [of no_meta no_meta], where x = 57]
  by (simp add: Tunable_ctor_def int_range_def)

subsection \<open>The conversion to int is defined\<close>

text \<open>
  In every reachable state the product that the reports convert with \<^verbatim>\<open>static_cast<int>\<close>
  truncates to a number that fits the 32-bit \<^verbatim>\<open>int\<close>, for every parameter of the registry.
\<close>

theorem scaled_values_fit_int:
  assumes "reachable mx st s" and "t \<in> set (tunables s)"
  shows "int_range (externalValue t)"
  using reachable_scaled_in_range [OF assms(1)] assms(2) by blast

theorem scaled_values_fit_int_witness:
  "int_range (externalValue
     (tunables (adjustTunable ''NTM_Default'' (- 2147483648) (program_init no_meta no_meta)) ! 32))"
proof -
  let ?s = "adjustTunable ''NTM_Default'' (- 2147483648) (program_init no_meta no_meta)"
  have r: "reachable no_meta no_meta ?s"
    by (rule reachable_adjust_init) (simp add: int_range_def)
  have "length (tunables ?s) = length (map name (tunables_init no_meta no_meta))"
    using reachable_fixed [OF r] by (metis length_map)
  then have "tunables ?s ! 32 \<in> set (tunables ?s)"
    unfolding names_init by simp
  from scaled_values_fit_int [OF r this] show ?thesis .
qed

subsection \<open>The defaults of the options declaration\<close>

text \<open>
  The default fields that \<^verbatim>\<open>outputTunables\<close> and the JSON snapshot show at start-up, in the
  order of the registry. The truncation loses nothing on the declared values.
\<close>

theorem default_options:
  "map externalValue (tunables (program_init mx st))
   = [20, 18, 4, 11, 84, 5, 3, 278, 67, 8, 0, 3, 108, 32, 196, 3, 2, 8074, 3000, 80, 56,
      1892, 4, 121, 120, 8, 3, 24, 395, 8, 153, 139, 98, 4, 1536]"
  by (simp add: program_init_def external_defaults)

end
